theory Spec2Isabelle
  imports Main
begin

section \<open>Error taxonomy\<close>

text \<open>
  The classes of \<^verbatim>\<open>expressError\<close> that the middleware and the models throw. Each
  constructor carries the message argument given at the throw site; \<open>None\<close> stands for
  a constructor call without argument (\<^verbatim>\<open>new UnauthorizedError()\<close>).
\<close>

datatype express_error =
    BadRequestError "string option"
  | UnauthorizedError "string option"
  | ForbiddenError "string option"
  | NotFoundError "string option"

section \<open>Authorization middleware\<close>

text \<open>
  The payload of a verified token, as \<^verbatim>\<open>createToken({ username, isAdmin })\<close> signs it.
\<close>

record identity =
  username :: string
  isAdmin :: bool

text \<open>\<^verbatim>\<open>res.locals\<close>: the only field the middleware touches is \<^verbatim>\<open>user\<close>.\<close>

record locals =
  user :: "identity option"

text \<open>
  The parts of \<^verbatim>\<open>req\<close> the middleware reads: \<^verbatim>\<open>req.headers\<close> (which may be
  undefined) and \<^verbatim>\<open>req.params\<close>.
\<close>

record request =
  headers :: "(string \<rightharpoonup> string) option"
  params :: "string \<rightharpoonup> string"

text \<open>What a middleware hands to Express: \<^verbatim>\<open>next()\<close> or \<^verbatim>\<open>next(err)\<close>.\<close>

datatype outcome = Next | NextErr express_error

definition fresh_locals :: locals where
  "fresh_locals = \<lparr>user = None\<rparr>"

text \<open>
  \<^verbatim>\<open>String.prototype.trim\<close> removes white space and line terminators at both ends;
  these are the ones among the 256 characters a header value can hold.
\<close>

definition is_js_space :: "char \<Rightarrow> bool" where
  "is_js_space c = (of_char c \<in> {9, 10, 11, 12, 13, 32, 160 :: nat})"

definition trim :: "string \<Rightarrow> string" where
  "trim s = rev (dropWhile is_js_space (rev (dropWhile is_js_space s)))"

text \<open>\<^verbatim>\<open>authHeader.replace(/^[Bb]earer /, "")\<close>: one match, anchored at the start.\<close>

definition strip_bearer :: "string \<Rightarrow> string" where
  "strip_bearer h =
     (if take 7 h = ''Bearer '' \<or> take 7 h = ''bearer '' then drop 7 h else h)"

text \<open>\<^verbatim>\<open>req.headers && req.headers.authorization\<close>\<close>

definition authHeader :: "request \<Rightarrow> string option" where
  "authHeader req = (case headers req of None \<Rightarrow> None | Some h \<Rightarrow> h ''authorization'')"

text \<open>
  \<^verbatim>\<open>authenticateJWT\<close>. The parameter \<open>verify\<close> is \<^verbatim>\<open>jwt.verify(_, SECRET_KEY)\<close>:
  \<open>None\<close> when it throws, the payload otherwise. A header that is undefined or the
  empty string is falsy and skips the verification; the \<^verbatim>\<open>catch\<close> branch calls
  \<^verbatim>\<open>next()\<close> as well.
\<close>

definition authenticateJWT ::
  "(string \<Rightarrow> identity option) \<Rightarrow> request \<Rightarrow> locals \<Rightarrow> locals \<times> outcome" where
  "authenticateJWT verify req res =
     (case authHeader req of
        None \<Rightarrow> (res, Next)
      | Some h \<Rightarrow>
          if h = [] then (res, Next)
          else (case verify (trim (strip_bearer h)) of
                  Some payload \<Rightarrow> (res\<lparr>user := Some payload\<rparr>, Next)
                | None \<Rightarrow> (res, Next)))"

definition ensureLoggedIn :: "request \<Rightarrow> locals \<Rightarrow> locals \<times> outcome" where
  "ensureLoggedIn req res =
     (if user res = None then (res, NextErr (UnauthorizedError None))
      else (res, Next))"

definition ensureAdmin :: "request \<Rightarrow> locals \<Rightarrow> locals \<times> outcome" where
  "ensureAdmin req res =
     (if (case user res of None \<Rightarrow> True | Some u \<Rightarrow> \<not> isAdmin u)
      then (res, NextErr (ForbiddenError
              (Some ''You must be an admin to access this resource'')))
      else (res, Next))"

text \<open>
  \<^verbatim>\<open>req.params.username\<close> is undefined on a route without that parameter; a string
  is never \<^verbatim>\<open>===\<close> to undefined.
\<close>

definition ensureAdminOrUser :: "request \<Rightarrow> locals \<Rightarrow> locals \<times> outcome" where
  "ensureAdminOrUser req res =
     (if (case user res of
            None \<Rightarrow> True
          | Some u \<Rightarrow> \<not> isAdmin u \<and> Some (username u) \<noteq> params req ''username'')
      then (res, NextErr (ForbiddenError
              (Some ''You must be an admin or the owner to access this resource'')))
      else (res, Next))"

subsection \<open>Chains of middleware\<close>

text \<open>
  A route lists its middleware (\<^verbatim>\<open>router.get("/:username", ensureLoggedIn,
  ensureAdminOrUser, ...)\<close>); Express runs them in order and stops at the first
  \<^verbatim>\<open>next(err)\<close>.
\<close>

datatype stage = AuthenticateJWT | EnsureLoggedIn | EnsureAdmin | EnsureAdminOrUser

fun run_stage ::
  "(string \<Rightarrow> identity option) \<Rightarrow> stage \<Rightarrow> request \<Rightarrow> locals \<Rightarrow> locals \<times> outcome" where
  "run_stage verify AuthenticateJWT req res = authenticateJWT verify req res"
| "run_stage verify EnsureLoggedIn req res = ensureLoggedIn req res"
| "run_stage verify EnsureAdmin req res = ensureAdmin req res"
| "run_stage verify EnsureAdminOrUser req res = ensureAdminOrUser req res"

fun run_chain ::
  "(string \<Rightarrow> identity option) \<Rightarrow> stage list \<Rightarrow> request \<Rightarrow> locals \<Rightarrow> locals \<times> outcome" where
  "run_chain verify [] req res = (res, Next)"
| "run_chain verify (s # ss) req res =
     (case run_stage verify s req res of
        (res', Next) \<Rightarrow> run_chain verify ss req res'
      | (res', NextErr e) \<Rightarrow> (res', NextErr e))"

section \<open>Partial updates\<close>

text \<open>
  The values of a patch and the bind parameters of a query. Numbers are carried along
  and never inspected, so their type is left open.
\<close>

datatype 'n js_value = JNull | JBool bool | JNum 'n | JStr string

text \<open>
  An object is the list of its entries in the order \<^verbatim>\<open>Object.keys\<close> enumerates them;
  a translation table such as \<^verbatim>\<open>jsToSql\<close> is only looked up and is a map.
\<close>

type_synonym 'n patch = "(string \<times> 'n js_value) list"

record 'n compiled_patch =
  setCols :: string
  values' :: "'n js_value list"

subsection \<open>Strings of JavaScript\<close>

definition dq :: char where
  "dq = CHR 0x22"


definition digit_char :: "nat \<Rightarrow> char" where
  "digit_char d = char_of (48 + d)"

text \<open>The decimal notation of a length or an index, as string concatenation writes it.\<close>

function string_of_nat :: "nat \<Rightarrow> string" where
  "string_of_nat n =
     (if n < 10 then [digit_char n]
      else string_of_nat (n div 10) @ [digit_char (n mod 10)])"
  by pat_completeness auto
termination
  by (relation "measure id") auto

declare string_of_nat.simps [simp del]

text \<open>Reading a decimal notation back.\<close>

definition digit_val :: "char \<Rightarrow> nat" where
  "digit_val c = of_char c - 48"

definition nat_of_string :: "string \<Rightarrow> nat" where
  "nat_of_string s = foldl (\<lambda>a c. 10 * a + digit_val c) 0 s"

text \<open>\<^verbatim>\<open>Array.prototype.join\<close>\<close>

fun join_with :: "string \<Rightarrow> string list \<Rightarrow> string" where
  "join_with sep [] = []"
| "join_with sep [x] = x"
| "join_with sep (x # y # ys) = x @ sep @ join_with sep (y # ys)"

subsection \<open>The compiler of partial updates\<close>

text \<open>
  Modelled from the spec: \<^verbatim>\<open>helpers/sql.js\<close>, which defines
  \<^verbatim>\<open>sqlForPartialUpdate\<close>, is not among the sources (its tests and its caller
  \<^verbatim>\<open>Company.update\<close> are). The storage column of a key is
  \<^verbatim>\<open>fieldNameMap[key]\<close> if present, else the key unchanged.
\<close>

definition column_name :: "(string \<rightharpoonup> string) \<Rightarrow> string \<Rightarrow> string" where
  "column_name jsToSql k = (case jsToSql k of Some c \<Rightarrow> c | None \<Rightarrow> k)"

text \<open>
  Modelled from the spec: the fragment \<^verbatim>\<open>"<column>"=$<position>\<close> emitted for a key.
\<close>

definition set_fragment :: "(string \<rightharpoonup> string) \<Rightarrow> string \<Rightarrow> nat \<Rightarrow> string" where
  "set_fragment jsToSql k pos = [dq] @ column_name jsToSql k @ [dq] @ ''=$'' @ string_of_nat pos"

text \<open>
  Modelled from the spec: the keys are processed in iteration order; the position
  starts at 1 and is incremented by one per key.
\<close>

fun set_fragments :: "(string \<rightharpoonup> string) \<Rightarrow> nat \<Rightarrow> string list \<Rightarrow> string list" where
  "set_fragments jsToSql pos [] = []"
| "set_fragments jsToSql pos (k # ks) =
     set_fragment jsToSql k pos # set_fragments jsToSql (Suc pos) ks"

text \<open>
  Modelled from the spec: \<^verbatim>\<open>compile(patch, fieldNameMap)\<close>. An empty patch fails with
  a \<^verbatim>\<open>BadRequestError\<close> whose message says that there is no data; otherwise the set
  clause is the fragments joined by a comma and a space, and the values are the
  original values in the order of the keys.
\<close>

definition sqlForPartialUpdate ::
  "'n patch \<Rightarrow> (string \<rightharpoonup> string) \<Rightarrow> express_error + 'n compiled_patch" where
  "sqlForPartialUpdate dataToUpdate jsToSql =
     (if dataToUpdate = [] then Inl (BadRequestError (Some ''No data''))
      else Inr \<lparr>setCols = join_with '', '' (set_fragments jsToSql 1 (map fst dataToUpdate)),
                values' = map snd dataToUpdate\<rparr>)"

text \<open>
  The position that a fragment, or a placeholder such as \<^verbatim>\<open>$3\<close>, names: the decimal
  number after its last dollar sign.
\<close>

definition placeholder_index :: "string \<Rightarrow> nat" where
  "placeholder_index s = nat_of_string (rev (takeWhile (\<lambda>c. c \<noteq> CHR ''$'') (rev s)))"

subsection \<open>\<^verbatim>\<open>Company.update\<close>\<close>






subsection \<open>The placeholders of a statement\<close>







section \<open>Properties of the middleware\<close>

text \<open>
  C6. \<^verbatim>\<open>ensureLoggedIn\<close> hands an \<^verbatim>\<open>UnauthorizedError\<close> to \<^verbatim>\<open>next\<close> exactly when
  \<^verbatim>\<open>res.locals.user\<close> is empty, and calls \<^verbatim>\<open>next()\<close> without error when an
  identity is present. A request without credential (no headers, or headers without
  \<^verbatim>\<open>authorization\<close>) that passes through \<^verbatim>\<open>authenticateJWT\<close> alone proceeds
  without error; followed by \<^verbatim>\<open>ensureLoggedIn\<close> it ends in \<^verbatim>\<open>UnauthorizedError\<close>.
\<close>

theorem ensureLoggedIn_unauthorized_iff:
  "(snd (ensureLoggedIn req res) = NextErr (UnauthorizedError None)) = (user res = None)
   \<and> (snd (ensureLoggedIn req res) = Next) = (user res \<noteq> None)
   \<and> (authHeader req = None \<longrightarrow>
        run_chain verify [AuthenticateJWT] req fresh_locals = (fresh_locals, Next)
        \<and> snd (run_chain verify [AuthenticateJWT, EnsureLoggedIn] req fresh_locals)
            = NextErr (UnauthorizedError None))"
  by (simp add: ensureLoggedIn_def authenticateJWT_def fresh_locals_def)

theorem ensureLoggedIn_unauthorized_iff_witness:
  "authHeader \<lparr>headers = Some Map.empty, params = Map.empty\<rparr> = None
   \<and> run_chain (\<lambda>t. None) [AuthenticateJWT]
        \<lparr>headers = Some Map.empty, params = Map.empty\<rparr> fresh_locals = (fresh_locals, Next)
   \<and> snd (run_chain (\<lambda>t. None) [AuthenticateJWT, EnsureLoggedIn]
        \<lparr>headers = Some Map.empty, params = Map.empty\<rparr> fresh_locals)
       = NextErr (UnauthorizedError None)"
  using ensureLoggedIn_unauthorized_iff
    [of "\<lparr>headers = Some Map.empty, params = Map.empty\<rparr>" fresh_locals "\<lambda>t. None"]
  by (simp add: authHeader_def)

text \<open>A credential that verifies is stored in the slot.\<close>

lemma authenticateJWT_stores_payload:
  "authHeader req = Some h \<Longrightarrow> h \<noteq> [] \<Longrightarrow> verify (trim (strip_bearer h)) = Some payload \<Longrightarrow>
   authenticateJWT verify req res = (res\<lparr>user := Some payload\<rparr>, Next)"
  by (simp add: authenticateJWT_def)

text \<open>
  The three guards return \<^verbatim>\<open>res.locals\<close> as they found it, and so does any chain
  built from them.
\<close>

lemma guard_stage_frame:
  "s \<noteq> AuthenticateJWT \<Longrightarrow> fst (run_stage verify s req res) = res"
  by (cases s) (simp_all add: ensureLoggedIn_def ensureAdmin_def ensureAdminOrUser_def)

lemma guard_chain_frame:
  "AuthenticateJWT \<notin> set ss \<Longrightarrow> fst (run_chain verify ss req res) = res"
proof (induction ss)
  case Nil
  show ?case by simp
next
  case (Cons s ss)
  from Cons.prems have s: "s \<noteq> AuthenticateJWT" and ss: "AuthenticateJWT \<notin> set ss"
    by auto
  obtain res' out where step: "run_stage verify s req res = (res', out)"
    by (cases "run_stage verify s req res")
  with guard_stage_frame [OF s, of verify req res] have "res' = res"
    by simp
  with step Cons.IH [OF ss] show ?case
    by (cases out) simp_all
qed

text \<open>
  C1. \<^verbatim>\<open>ensureAdminOrUser\<close> calls \<^verbatim>\<open>next()\<close> exactly when \<^verbatim>\<open>res.locals.user\<close>
  holds an identity that is an admin or whose \<^verbatim>\<open>username\<close> is the string
  \<^verbatim>\<open>req.params.username\<close> (equality of strings, character by character); in every
  other case it hands a \<^verbatim>\<open>ForbiddenError\<close> to \<^verbatim>\<open>next\<close>. An admin passes whatever
  the path names.
\<close>

theorem ensureAdminOrUser_continues_iff:
  "(snd (ensureAdminOrUser req res) = Next) =
     (case user res of
        None \<Rightarrow> False
      | Some u \<Rightarrow> isAdmin u \<or> params req ''username'' = Some (username u))
   \<and> (snd (ensureAdminOrUser req res) \<noteq> Next \<longrightarrow>
        snd (ensureAdminOrUser req res) = NextErr (ForbiddenError
          (Some ''You must be an admin or the owner to access this resource'')))
   \<and> (user res = Some u \<and> isAdmin u \<longrightarrow> snd (ensureAdminOrUser req res) = Next)"
  by (auto simp: ensureAdminOrUser_def split: option.splits)

theorem ensureAdminOrUser_continues_iff_witness:
  "snd (ensureAdminOrUser \<lparr>headers = None, params = [''username'' \<mapsto> ''u1'']\<rparr>
          \<lparr>user = Some \<lparr>username = ''u1'', isAdmin = False\<rparr>\<rparr>) = Next
   \<and> snd (ensureAdminOrUser \<lparr>headers = None, params = [''username'' \<mapsto> ''U1'']\<rparr>
          \<lparr>user = Some \<lparr>username = ''u1'', isAdmin = False\<rparr>\<rparr>)
       = NextErr (ForbiddenError
           (Some ''You must be an admin or the owner to access this resource''))
   \<and> snd (ensureAdminOrUser \<lparr>headers = None, params = [''username'' \<mapsto> ''u1'']\<rparr>
          \<lparr>user = None\<rparr>)
       = NextErr (ForbiddenError
           (Some ''You must be an admin or the owner to access this resource''))
   \<and> snd (ensureAdminOrUser \<lparr>headers = None, params = [''username'' \<mapsto> ''u1'']\<rparr>
          \<lparr>user = Some \<lparr>username = ''admin'', isAdmin = True\<rparr>\<rparr>) = Next"
  using
    ensureAdminOrUser_continues_iff
      [of "\<lparr>headers = None, params = [''username'' \<mapsto> ''u1'']\<rparr>"
          "\<lparr>user = Some \<lparr>username = ''u1'', isAdmin = False\<rparr>\<rparr>"
          "\<lparr>username = ''u1'', isAdmin = False\<rparr>"]
    ensureAdminOrUser_continues_iff
      [of "\<lparr>headers = None, params = [''username'' \<mapsto> ''U1'']\<rparr>"
          "\<lparr>user = Some \<lparr>username = ''u1'', isAdmin = False\<rparr>\<rparr>"
          "\<lparr>username = ''u1'', isAdmin = False\<rparr>"]
    ensureAdminOrUser_continues_iff
      [of "\<lparr>headers = None, params = [''username'' \<mapsto> ''u1'']\<rparr>"
          "\<lparr>user = None\<rparr>"
          "\<lparr>username = ''u1'', isAdmin = False\<rparr>"]
    ensureAdminOrUser_continues_iff
      [of "\<lparr>headers = None, params = [''username'' \<mapsto> ''u1'']\<rparr>"
          "\<lparr>user = Some \<lparr>username = ''admin'', isAdmin = True\<rparr>\<rparr>"
          "\<lparr>username = ''admin'', isAdmin = True\<rparr>"]
  by simp

text \<open>
  C5. \<^verbatim>\<open>authenticateJWT\<close> always calls \<^verbatim>\<open>next()\<close> and never \<^verbatim>\<open>next(err)\<close>. When
  the \<^verbatim>\<open>authorization\<close> header is absent, or \<^verbatim>\<open>jwt.verify\<close> throws on the
  credential, \<^verbatim>\<open>res.locals\<close> is returned as it was, so the \<^verbatim>\<open>user\<close> slot of a new
  request stays empty; the two cases give the same result and what follows cannot tell
  them apart.
\<close>

theorem authenticateJWT_never_halts:
  "snd (authenticateJWT verify req res) = Next
   \<and> (authHeader req = None \<longrightarrow> authenticateJWT verify req res = (res, Next))
   \<and> (authHeader req = Some h \<and> verify (trim (strip_bearer h)) = None \<longrightarrow>
        authenticateJWT verify req res = (res, Next))
   \<and> (authHeader req = None \<or>
        (\<exists>h'. authHeader req = Some h' \<and> verify (trim (strip_bearer h')) = None) \<longrightarrow>
        user (fst (authenticateJWT verify req fresh_locals)) = None)
   \<and> (authHeader req = None \<and> authHeader req' = Some h
        \<and> verify (trim (strip_bearer h)) = None \<longrightarrow>
        authenticateJWT verify req res = authenticateJWT verify req' res)"
  by (auto simp: authenticateJWT_def fresh_locals_def split: option.splits)

lemma trim_bearer_bad: "trim (strip_bearer ''Bearer bad'') = ''bad''"
  by (simp add: trim_def strip_bearer_def is_js_space_def)

theorem authenticateJWT_never_halts_witness:
  "authHeader \<lparr>headers = Some Map.empty, params = Map.empty\<rparr> = None
   \<and> authHeader \<lparr>headers = Some [''authorization'' \<mapsto> ''Bearer bad''], params = Map.empty\<rparr>
       = Some ''Bearer bad''
   \<and> (\<lambda>t. if t = ''good'' then Some \<lparr>username = ''u1'', isAdmin = False\<rparr> else None)
        (trim (strip_bearer ''Bearer bad'')) = None
   \<and> authenticateJWT
        (\<lambda>t. if t = ''good'' then Some \<lparr>username = ''u1'', isAdmin = False\<rparr> else None)
        \<lparr>headers = Some [''authorization'' \<mapsto> ''Bearer bad''], params = Map.empty\<rparr>
        fresh_locals = (fresh_locals, Next)
   \<and> authenticateJWT
        (\<lambda>t. if t = ''good'' then Some \<lparr>username = ''u1'', isAdmin = False\<rparr> else None)
        \<lparr>headers = Some Map.empty, params = Map.empty\<rparr> fresh_locals
      = authenticateJWT
        (\<lambda>t. if t = ''good'' then Some \<lparr>username = ''u1'', isAdmin = False\<rparr> else None)
        \<lparr>headers = Some [''authorization'' \<mapsto> ''Bearer bad''], params = Map.empty\<rparr>
        fresh_locals"
  using
    authenticateJWT_never_halts
      [of "\<lambda>t. if t = ''good'' then Some \<lparr>username = ''u1'', isAdmin = False\<rparr> else None"
          "\<lparr>headers = Some Map.empty, params = Map.empty\<rparr>" fresh_locals
          "''Bearer bad''"
          "\<lparr>headers = Some [''authorization'' \<mapsto> ''Bearer bad''], params = Map.empty\<rparr>"]
    authenticateJWT_never_halts
      [of "\<lambda>t. if t = ''good'' then Some \<lparr>username = ''u1'', isAdmin = False\<rparr> else None"
          "\<lparr>headers = Some [''authorization'' \<mapsto> ''Bearer bad''], params = Map.empty\<rparr>"
          fresh_locals "''Bearer bad''"]
  by (simp add: authHeader_def trim_bearer_bad)

text \<open>
  C7. \<^verbatim>\<open>ensureAdmin\<close> hands a \<^verbatim>\<open>ForbiddenError\<close> with the message
  \<^verbatim>\<open>You must be an admin to access this resource\<close> to \<^verbatim>\<open>next\<close> exactly when
  \<^verbatim>\<open>res.locals.user\<close> is empty or its \<^verbatim>\<open>isAdmin\<close> is false, and calls
  \<^verbatim>\<open>next()\<close> otherwise. It tests the presence of the identity itself: alone on a
  new request it answers \<^verbatim>\<open>ForbiddenError\<close>, with no \<^verbatim>\<open>ensureLoggedIn\<close> before it.
\<close>

theorem ensureAdmin_forbidden_iff:
  "(snd (ensureAdmin req res) = NextErr (ForbiddenError
       (Some ''You must be an admin to access this resource'')))
     = (case user res of None \<Rightarrow> True | Some u \<Rightarrow> \<not> isAdmin u)
   \<and> (snd (ensureAdmin req res) = Next)
     = (case user res of None \<Rightarrow> False | Some u \<Rightarrow> isAdmin u)
   \<and> run_chain verify [EnsureAdmin] req fresh_locals
     = (fresh_locals, NextErr (ForbiddenError
         (Some ''You must be an admin to access this resource'')))"
  by (auto simp: ensureAdmin_def fresh_locals_def split: option.splits)

theorem ensureAdmin_forbidden_iff_witness:
  "snd (ensureAdmin \<lparr>headers = None, params = Map.empty\<rparr>
          \<lparr>user = Some \<lparr>username = ''u1'', isAdmin = False\<rparr>\<rparr>)
     = NextErr (ForbiddenError (Some ''You must be an admin to access this resource''))
   \<and> snd (ensureAdmin \<lparr>headers = None, params = Map.empty\<rparr> \<lparr>user = None\<rparr>)
     = NextErr (ForbiddenError (Some ''You must be an admin to access this resource''))
   \<and> snd (ensureAdmin \<lparr>headers = None, params = Map.empty\<rparr>
          \<lparr>user = Some \<lparr>username = ''admin'', isAdmin = True\<rparr>\<rparr>) = Next"
  using
    ensureAdmin_forbidden_iff
      [of "\<lparr>headers = None, params = Map.empty\<rparr>"
          "\<lparr>user = Some \<lparr>username = ''u1'', isAdmin = False\<rparr>\<rparr>"]
    ensureAdmin_forbidden_iff
      [of "\<lparr>headers = None, params = Map.empty\<rparr>" "\<lparr>user = None\<rparr>"]
    ensureAdmin_forbidden_iff
      [of "\<lparr>headers = None, params = Map.empty\<rparr>"
          "\<lparr>user = Some \<lparr>username = ''admin'', isAdmin = True\<rparr>\<rparr>"]
  by simp

text \<open>
  C10. \<^verbatim>\<open>ensureLoggedIn\<close>, \<^verbatim>\<open>ensureAdmin\<close> and \<^verbatim>\<open>ensureAdminOrUser\<close> return
  \<^verbatim>\<open>res.locals\<close> unchanged, whether they continue or halt. Hence a chain of these
  guards leaves the \<^verbatim>\<open>user\<close> slot as it found it, and after \<^verbatim>\<open>authenticateJWT\<close>
  followed by any such chain the slot holds what \<^verbatim>\<open>authenticateJWT\<close> stored.
\<close>

theorem guards_preserve_identity_slot:
  "fst (ensureLoggedIn req res) = res
   \<and> fst (ensureAdmin req res) = res
   \<and> fst (ensureAdminOrUser req res) = res
   \<and> (AuthenticateJWT \<notin> set ss \<longrightarrow> fst (run_chain verify ss req res) = res)
   \<and> (AuthenticateJWT \<notin> set ss \<longrightarrow>
        fst (run_chain verify (AuthenticateJWT # ss) req res)
          = fst (authenticateJWT verify req res))"
proof -
  have guards: "fst (ensureLoggedIn req res) = res" "fst (ensureAdmin req res) = res"
    "fst (ensureAdminOrUser req res) = res"
    by (simp_all add: ensureLoggedIn_def ensureAdmin_def ensureAdminOrUser_def)
  have after: "fst (run_chain verify (AuthenticateJWT # ss) req res)
                 = fst (authenticateJWT verify req res)"
    if ss: "AuthenticateJWT \<notin> set ss"
  proof -
    obtain res' out where step: "authenticateJWT verify req res = (res', out)"
      by (cases "authenticateJWT verify req res")
    show ?thesis
    proof (cases out)
      case Next
      with step guard_chain_frame [OF ss, of verify req res'] show ?thesis
        by simp
    next
      case (NextErr e)
      with step show ?thesis by simp
    qed
  qed
  from guards after guard_chain_frame [of ss verify req res] show ?thesis
    by simp
qed

theorem guards_preserve_identity_slot_witness:
  "AuthenticateJWT \<notin> set [EnsureLoggedIn, EnsureAdminOrUser]
   \<and> fst (run_chain (\<lambda>t. None) [EnsureLoggedIn, EnsureAdminOrUser]
        \<lparr>headers = None, params = [''username'' \<mapsto> ''u2'']\<rparr>
        \<lparr>user = Some \<lparr>username = ''u1'', isAdmin = False\<rparr>\<rparr>)
      = \<lparr>user = Some \<lparr>username = ''u1'', isAdmin = False\<rparr>\<rparr>
   \<and> fst (run_chain (\<lambda>t. None) (AuthenticateJWT # [EnsureLoggedIn, EnsureAdminOrUser])
        \<lparr>headers = None, params = [''username'' \<mapsto> ''u2'']\<rparr>
        \<lparr>user = Some \<lparr>username = ''u1'', isAdmin = False\<rparr>\<rparr>)
      = fst (authenticateJWT (\<lambda>t. None)
        \<lparr>headers = None, params = [''username'' \<mapsto> ''u2'']\<rparr>
        \<lparr>user = Some \<lparr>username = ''u1'', isAdmin = False\<rparr>\<rparr>)"
  using
    guards_preserve_identity_slot
      [of "\<lparr>headers = None, params = [''username'' \<mapsto> ''u2'']\<rparr>"
          "\<lparr>user = Some \<lparr>username = ''u1'', isAdmin = False\<rparr>\<rparr>"
          "[EnsureLoggedIn, EnsureAdminOrUser]" "\<lambda>t. None"]
  by simp

section \<open>Properties of the compiler and of its caller\<close>

subsection \<open>Decimal notation\<close>

lemma digit_val_digit_char: "d < 10 \<Longrightarrow> digit_val (digit_char d) = d"
  by (simp add: digit_val_def digit_char_def)

lemma nat_of_string_snoc: "nat_of_string (s @ [c]) = 10 * nat_of_string s + digit_val c"
  by (simp add: nat_of_string_def)

lemma nat_of_string_string_of_nat: "nat_of_string (string_of_nat n) = n"
proof (induction n rule: string_of_nat.induct)
  case (1 n)
  show ?case
  proof (cases "n < 10")
    case True
    then show ?thesis
      by (simp add: string_of_nat.simps [of n] nat_of_string_def digit_val_digit_char)
  next
    case False
    with "1.IH" have "nat_of_string (string_of_nat (n div 10)) = n div 10"
      by simp
    with False show ?thesis
      by (simp add: string_of_nat.simps [of n] nat_of_string_snoc digit_val_digit_char)
  qed
qed

lemma digit_char_not_dollar:
  assumes "d < 10"
  shows "digit_char d \<noteq> CHR ''$''"
proof
  assume "digit_char d = CHR ''$''"
  then have "(of_char (digit_char d) :: nat) = of_char CHR ''$''"
    by simp
  with assms show False
    by (simp add: digit_char_def)
qed

lemma string_of_nat_no_dollar: "CHR ''$'' \<notin> set (string_of_nat n)"
proof (induction n rule: string_of_nat.induct)
  case (1 n)
  show ?case
  proof (cases "n < 10")
    case True
    then show ?thesis
      using digit_char_not_dollar [of n] by (simp add: string_of_nat.simps [of n])
  next
    case False
    with "1.IH" have "CHR ''$'' \<notin> set (string_of_nat (n div 10))"
      by simp
    moreover have "digit_char (n mod 10) \<noteq> CHR ''$''"
      by (rule digit_char_not_dollar) simp
    ultimately show ?thesis
      using False by (simp add: string_of_nat.simps [of n])
  qed
qed

lemma string_of_nat_1: "string_of_nat (Suc 0) = ''1''"
  by code_simp

lemma string_of_nat_2: "string_of_nat (Suc (Suc 0)) = ''2''"
  by code_simp

lemma string_of_nat_3: "string_of_nat (Suc (Suc (Suc 0))) = ''3''"
  by code_simp

lemmas string_of_nat_small = string_of_nat_1 string_of_nat_2 string_of_nat_3

subsection \<open>Fragments and their positions\<close>

lemma placeholder_index_dollar:
  "placeholder_index (s @ ''$'' @ string_of_nat n) = n"
proof -
  have "takeWhile (\<lambda>c. c \<noteq> CHR ''$'') (rev (string_of_nat n) @ CHR ''$'' # rev s)
          = rev (string_of_nat n)"
    using string_of_nat_no_dollar [of n] by (auto simp: takeWhile_tail)
  then show ?thesis
    by (simp add: placeholder_index_def nat_of_string_string_of_nat)
qed

lemma placeholder_index_set_fragment: "placeholder_index (set_fragment M k pos) = pos"
  using placeholder_index_dollar [of "[dq] @ column_name M k @ [dq] @ ''=''" pos]
  by (simp add: set_fragment_def)

lemma set_fragments_nth:
  "set_fragments M pos ks = map (\<lambda>i. set_fragment M (ks ! i) (pos + i)) [0..<length ks]"
proof (induction ks arbitrary: pos)
  case Nil
  show ?case by simp
next
  case (Cons k ks)
  have "[0..<length (k # ks)] = 0 # map Suc [0..<length ks]"
    by (simp add: upt_conv_Cons map_Suc_upt del: upt_Suc)
  then show ?case
    by (simp add: Cons.IH [of "Suc pos"] comp_def)
qed

lemma length_set_fragments: "length (set_fragments M pos ks) = length ks"
  by (simp add: set_fragments_nth)

lemma placeholder_index_set_fragments:
  "map placeholder_index (set_fragments M pos ks) = [pos..<pos + length ks]"
proof (induction ks arbitrary: pos)
  case Nil
  show ?case by simp
next
  case (Cons k ks)
  have "[pos..<pos + length (k # ks)] = pos # [Suc pos..<Suc pos + length ks]"
    by (simp add: upt_conv_Cons del: upt_Suc)
  with Cons.IH [of "Suc pos"] show ?case
    by (simp add: placeholder_index_set_fragment)
qed

lemma sqlForPartialUpdate_nonempty:
  assumes "P \<noteq> []"
  shows "sqlForPartialUpdate P M =
           Inr \<lparr>setCols = join_with '', '' (set_fragments M 1 (map fst P)),
                values' = map snd P\<rparr>"
  using assms by (simp add: sqlForPartialUpdate_def)

lemma set_fragments_at:
  assumes "i < length P"
  shows "set_fragments M 1 (map fst P) ! i =
           [dq] @ column_name M (fst (P ! i)) @ [dq] @ ''=$'' @ string_of_nat (i + 1)"
  using assms by (simp add: set_fragments_nth set_fragment_def)

subsection \<open>The joined set clause\<close>

lemma join_with_concat:
  "join_with sep (x # ys) = x @ concat (map (\<lambda>y. sep @ y) ys)"
  by (induction ys arbitrary: x) simp_all

lemma set_clause_concat:
  assumes "P \<noteq> []"
  shows "join_with '', '' (set_fragments M 1 (map fst P))
           = hd (set_fragments M 1 (map fst P))
             @ concat (map (\<lambda>f. '', '' @ f) (tl (set_fragments M 1 (map fst P))))"
proof -
  from assms obtain e es where "P = e # es"
    by (cases P) auto
  then show ?thesis
    by (simp add: join_with_concat)
qed

subsection \<open>Reading the placeholders of a statement\<close>




















subsection \<open>The claims\<close>

text \<open>
  C2. Whatever the translation table, the empty one included, the compiler answers an
  empty patch with a \<^verbatim>\<open>BadRequestError\<close> whose message is \<^verbatim>\<open>No data\<close>, and never
  with a compiled patch.
\<close>

theorem sqlForPartialUpdate_empty_patch:
  "sqlForPartialUpdate [] jsToSql = Inl (BadRequestError (Some ''No data''))
   \<and> sqlForPartialUpdate [] Map.empty = Inl (BadRequestError (Some ''No data''))
   \<and> (\<nexists>r. sqlForPartialUpdate [] jsToSql = Inr r)"
  by (simp add: sqlForPartialUpdate_def)

theorem sqlForPartialUpdate_empty_patch_witness:
  "sqlForPartialUpdate ([] :: int patch) [''firstName'' \<mapsto> ''first_name'']
     = Inl (BadRequestError (Some ''No data''))"
  by (rule sqlForPartialUpdate_empty_patch [THEN conjunct1])

text \<open>
  C3. For a patch that is not empty the compiler returns the original values in the
  order of the patch, as many as the patch has entries, and a set clause that is one
  fragment per key, in the same order, each fragment after the first preceded by a
  comma and a space; the fragment of the key at place \<open>i\<close> (counted from 0) carries the
  placeholder \<^verbatim>\<open>$\<close>\<open>(i + 1)\<close>, so the positions read off the fragments are
  1, 2, ..., the number of entries.
\<close>

theorem sqlForPartialUpdate_values_and_positions:
  assumes "P \<noteq> []"
  shows "\<exists>r frs. sqlForPartialUpdate P M = Inr r
           \<and> values' r = map snd P
           \<and> length (values' r) = length P
           \<and> length frs = length P
           \<and> (\<forall>i<length P. frs ! i =
                [dq] @ column_name M (fst (P ! i)) @ [dq] @ ''=$'' @ string_of_nat (i + 1))
           \<and> setCols r = hd frs @ concat (map (\<lambda>f. '', '' @ f) (tl frs))
           \<and> map placeholder_index frs = [1..<length P + 1]"
proof -
  let ?frs = "set_fragments M 1 (map fst P)"
  let ?r = "\<lparr>setCols = join_with '', '' ?frs, values' = map snd P\<rparr>"
  have "sqlForPartialUpdate P M = Inr ?r"
    by (rule sqlForPartialUpdate_nonempty [OF assms])
  moreover have "length ?frs = length P"
    by (simp add: length_set_fragments)
  moreover have "\<forall>i<length P. ?frs ! i =
      [dq] @ column_name M (fst (P ! i)) @ [dq] @ ''=$'' @ string_of_nat (i + 1)"
    using set_fragments_at [of _ P M] by blast
  moreover have "setCols ?r = hd ?frs @ concat (map (\<lambda>f. '', '' @ f) (tl ?frs))"
    using set_clause_concat [OF assms, of M] by simp
  moreover have "map placeholder_index ?frs = [1..<length P + 1]"
    by (simp add: placeholder_index_set_fragments)
  ultimately show ?thesis
    by (intro exI [of _ ?r] exI [of _ ?frs]) simp
qed

theorem sqlForPartialUpdate_values_and_positions_witness:
  "[(''firstName'', JStr ''Aliya''), (''age'', JNum (32::int))] \<noteq> []
   \<and> sqlForPartialUpdate [(''firstName'', JStr ''Aliya''), (''age'', JNum (32::int))]
        [''firstName'' \<mapsto> ''first_name'']
      = Inr \<lparr>setCols =
                [CHR 0x22, CHR ''f'', CHR ''i'', CHR ''r'', CHR ''s'', CHR ''t'', CHR ''_'',
                 CHR ''n'', CHR ''a'', CHR ''m'', CHR ''e'', CHR 0x22, CHR ''='', CHR ''$'',
                 CHR ''1'', CHR '','', CHR '' '', CHR 0x22, CHR ''a'', CHR ''g'', CHR ''e'',
                 CHR 0x22, CHR ''='', CHR ''$'', CHR ''2''],
              values' = [JStr ''Aliya'', JNum 32]\<rparr>
   \<and> map placeholder_index
        [[CHR 0x22] @ ''first_name'' @ [CHR 0x22] @ ''=$1'',
         [CHR 0x22] @ ''age'' @ [CHR 0x22] @ ''=$2''] = [1, 2]"
proof -
  let ?P = "[(''firstName'', JStr ''Aliya''), (''age'', JNum (32::int))]"
  let ?M = "[''firstName'' \<mapsto> ''first_name'']"
  have ne: "?P \<noteq> []"
    by simp
  from sqlForPartialUpdate_values_and_positions [OF ne, of ?M]
  obtain r frs where r: "sqlForPartialUpdate ?P ?M = Inr r"
    and vals: "values' r = map snd ?P"
    and len: "length frs = length ?P"
    and frs: "\<forall>i<length ?P. frs ! i =
        [dq] @ column_name ?M (fst (?P ! i)) @ [dq] @ ''=$'' @ string_of_nat (i + 1)"
    and cols: "setCols r = hd frs @ concat (map (\<lambda>f. '', '' @ f) (tl frs))"
    and idx: "map placeholder_index frs = [1..<length ?P + 1]"
    by blast
  from frs have "frs ! 0 = [dq] @ ''first_name'' @ [dq] @ ''=$1''"
    and "frs ! 1 = [dq] @ ''age'' @ [dq] @ ''=$2''"
    by (simp_all add: column_name_def string_of_nat_small)
  with len have frs_eq: "frs = [[dq] @ ''first_name'' @ [dq] @ ''=$1'', [dq] @ ''age'' @ [dq] @ ''=$2'']"
    by (cases frs; cases "tl frs"; cases "tl (tl frs)") auto
  have "[1..<length ?P + 1] = [1, 2]"
    by (simp add: upt_conv_Cons)
  with idx frs_eq r vals cols ne show ?thesis
    by (cases r) (simp add: dq_def)
qed

text \<open>
  C4. For a patch that is not empty, the column written into the fragment of a key is
  the entry of the translation table for that key when there is one, and the key
  itself when there is none. The patch \<^verbatim>\<open>{firstName: "Aliya", age: 32}\<close> compiles to
  \<^verbatim>\<open>"first_name"=$1, "age"=$2\<close> with the table \<^verbatim>\<open>{firstName: "first_name"}\<close> (and with
  the table of the test, which also maps \<^verbatim>\<open>age\<close> to itself), to
  \<^verbatim>\<open>"firstName"=$1, "age"=$2\<close> with the empty table, each time with the values
  \<^verbatim>\<open>["Aliya", 32]\<close>.
\<close>

theorem sqlForPartialUpdate_column_names:
  "(P \<noteq> [] \<longrightarrow>
      (\<exists>r frs. sqlForPartialUpdate P M = Inr r
         \<and> setCols r = join_with '', '' frs
         \<and> setCols r = hd frs @ concat (map (\<lambda>f. '', '' @ f) (tl frs))
         \<and> length frs = length P
         \<and> (\<forall>i<length P. frs ! i =
              [dq] @ (case M (fst (P ! i)) of Some c \<Rightarrow> c | None \<Rightarrow> fst (P ! i))
                @ [dq] @ ''=$'' @ string_of_nat (i + 1))))
   \<and> sqlForPartialUpdate [(''firstName'', JStr ''Aliya''), (''age'', JNum n32)]
        [''firstName'' \<mapsto> ''first_name'']
      = Inr \<lparr>setCols = [dq] @ ''first_name'' @ [dq] @ ''=$1, '' @ [dq] @ ''age'' @ [dq] @ ''=$2'',
              values' = [JStr ''Aliya'', JNum n32]\<rparr>
   \<and> sqlForPartialUpdate [(''firstName'', JStr ''Aliya''), (''age'', JNum n32)] Map.empty
      = Inr \<lparr>setCols = [dq] @ ''firstName'' @ [dq] @ ''=$1, '' @ [dq] @ ''age'' @ [dq] @ ''=$2'',
              values' = [JStr ''Aliya'', JNum n32]\<rparr>
   \<and> sqlForPartialUpdate [(''firstName'', JStr ''Aliya''), (''age'', JNum n32)]
        [''firstName'' \<mapsto> ''first_name'', ''age'' \<mapsto> ''age'']
      = Inr \<lparr>setCols = [dq] @ ''first_name'' @ [dq] @ ''=$1, '' @ [dq] @ ''age'' @ [dq] @ ''=$2'',
              values' = [JStr ''Aliya'', JNum n32]\<rparr>"
proof (intro conjI impI)
  assume P: "P \<noteq> []"
  let ?frs = "set_fragments M 1 (map fst P)"
  let ?r = "\<lparr>setCols = join_with '', '' ?frs, values' = map snd P\<rparr>"
  have "sqlForPartialUpdate P M = Inr ?r"
    by (rule sqlForPartialUpdate_nonempty [OF P])
  moreover have "length ?frs = length P"
    by (simp add: length_set_fragments)
  moreover have "setCols ?r = hd ?frs @ concat (map (\<lambda>f. '', '' @ f) (tl ?frs))"
    using set_clause_concat [OF P, of M] by simp
  moreover have "\<forall>i<length P. ?frs ! i =
      [dq] @ (case M (fst (P ! i)) of Some c \<Rightarrow> c | None \<Rightarrow> fst (P ! i))
        @ [dq] @ ''=$'' @ string_of_nat (i + 1)"
    using set_fragments_at [of _ P M] unfolding column_name_def by blast
  ultimately show "\<exists>r frs. sqlForPartialUpdate P M = Inr r
         \<and> setCols r = join_with '', '' frs
         \<and> setCols r = hd frs @ concat (map (\<lambda>f. '', '' @ f) (tl frs))
         \<and> length frs = length P
         \<and> (\<forall>i<length P. frs ! i =
              [dq] @ (case M (fst (P ! i)) of Some c \<Rightarrow> c | None \<Rightarrow> fst (P ! i))
                @ [dq] @ ''=$'' @ string_of_nat (i + 1))"
    by (intro exI [of _ ?r] exI [of _ ?frs]) simp
qed (simp_all add: sqlForPartialUpdate_def set_fragment_def column_name_def
      string_of_nat_small)

theorem sqlForPartialUpdate_column_names_witness:
  "[(''firstName'', JStr ''Aliya''), (''age'', JNum (32::int))] \<noteq> []
   \<and> (\<exists>r. sqlForPartialUpdate [(''firstName'', JStr ''Aliya''), (''age'', JNum (32::int))]
          [''firstName'' \<mapsto> ''first_name''] = Inr r
        \<and> setCols r =
            [CHR 0x22, CHR ''f'', CHR ''i'', CHR ''r'', CHR ''s'', CHR ''t'', CHR ''_'',
             CHR ''n'', CHR ''a'', CHR ''m'', CHR ''e'', CHR 0x22, CHR ''='', CHR ''$'',
             CHR ''1'', CHR '','', CHR '' '', CHR 0x22, CHR ''a'', CHR ''g'', CHR ''e'',
             CHR 0x22, CHR ''='', CHR ''$'', CHR ''2''])"
proof -
  let ?P = "[(''firstName'', JStr ''Aliya''), (''age'', JNum (32::int))]"
  let ?M = "[''firstName'' \<mapsto> ''first_name'']"
  have ne: "?P \<noteq> []"
    by simp
  note general = sqlForPartialUpdate_column_names [where P = ?P and M = ?M, THEN conjunct1]
  from general ne
  obtain r frs where r: "sqlForPartialUpdate ?P ?M = Inr r"
    and cols: "setCols r = hd frs @ concat (map (\<lambda>f. '', '' @ f) (tl frs))"
    and len: "length frs = length ?P"
    and frs: "\<forall>i<length ?P. frs ! i =
        [dq] @ (case ?M (fst (?P ! i)) of Some c \<Rightarrow> c | None \<Rightarrow> fst (?P ! i))
          @ [dq] @ ''=$'' @ string_of_nat (i + 1)"
    by blast
  from frs have "frs ! 0 = [dq] @ ''first_name'' @ [dq] @ ''=$1''"
    and "frs ! 1 = [dq] @ ''age'' @ [dq] @ ''=$2''"
    by (simp_all add: string_of_nat_small)
  with len have "frs = [[dq] @ ''first_name'' @ [dq] @ ''=$1'', [dq] @ ''age'' @ [dq] @ ''=$2'']"
    by (cases frs; cases "tl frs"; cases "tl (tl frs)") auto
  with cols have "setCols r =
      [CHR 0x22, CHR ''f'', CHR ''i'', CHR ''r'', CHR ''s'', CHR ''t'', CHR ''_'',
       CHR ''n'', CHR ''a'', CHR ''m'', CHR ''e'', CHR 0x22, CHR ''='', CHR ''$'',
       CHR ''1'', CHR '','', CHR '' '', CHR 0x22, CHR ''a'', CHR ''g'', CHR ''e'',
       CHR 0x22, CHR ''='', CHR ''$'', CHR ''2'']"
    by (simp add: dq_def)
  with r ne show ?thesis
    by blast
qed




end
